theory Spec2Isabelle
  imports Complex_Main
begin

section \<open>The anomaly detector of \<open>main.py\<close>\<close>

text \<open>
  Python's \<open>float\<close> is idealised as \<^typ>\<open>real\<close>: every sum, quotient and square root
  of the source is the exact one. Python's unbounded \<open>int\<close> is \<^typ>\<open>int\<close>. The clock
  \<open>time.time()\<close> read inside \<open>check\<close> is an argument \<open>now\<close> of the model.
\<close>

subsection \<open>Data\<close>

record Settings =
  telegram_token :: string
  telegram_chat_id :: string
  symbol :: string
  kline_interval :: string
  volume_window :: int
  volume_zscore :: real
  minute_volume_min :: real
  price_window :: int
  price_pct_change :: real
  alert_cooldown_min :: int
  merge_signals_window :: int

text \<open>
  A Binance kline, with the fields \<open>t, T, o, h, l, c, v, x\<close> of the source's dict. The
  numeric strings are taken as already converted by \<open>float\<close>, and \<open>k_x\<close> is the value of
  \<open>kline.get("x", False)\<close>.
\<close>

record kline =
  k_t :: int
  k_T :: int
  k_o :: real
  k_h :: real
  k_l :: real
  k_c :: real
  k_v :: real
  k_x :: bool

text \<open>The returned dict \<open>{"volume": _, "price": _, "merged": _}\<close>.\<close>

record signals =
  volume :: bool
  price :: bool
  merged :: bool

text \<open>
  \<open>collections.deque(maxlen=n)\<close>: the bound is fixed at construction, a negative bound
  raises \<open>ValueError\<close>, and \<open>append\<close> on a full deque drops the element at the left end.
\<close>

record deque =
  maxlen :: nat
  items :: "real list"

datatype error = ValueError

definition deque_new :: "int \<Rightarrow> error + deque" where
  "deque_new n = (if n < 0 then Inl ValueError else Inr \<lparr>maxlen = nat n, items = []\<rparr>)"

definition deque_append :: "deque \<Rightarrow> real \<Rightarrow> deque" where
  "deque_append q a =
     (let ys = items q @ [a]
      in q\<lparr>items := (if length ys > maxlen q then tl ys else ys)\<rparr>)"

text \<open>
  The detector object. \<open>last_alert_ts\<close> is a \<open>defaultdict(lambda: 0.0)\<close>: a total function
  from keys to timestamps, \<open>0\<close> at every key never written.
\<close>

record detector =
  conf :: Settings
  volumes :: deque
  prices :: deque
  last_alert_ts :: "string \<Rightarrow> real"
  last_minute_ts :: "int option"

definition init :: "Settings \<Rightarrow> error + detector" where
  "init s =
     (case deque_new (volume_window s) of
        Inl e \<Rightarrow> Inl e
      | Inr vq \<Rightarrow>
         (case deque_new (price_window s + 1) of
            Inl e \<Rightarrow> Inl e
          | Inr pq \<Rightarrow>
              Inr \<lparr>conf = s, volumes = vq, prices = pq,
                   last_alert_ts = (\<lambda>_. 0), last_minute_ts = None\<rparr>))"

subsection \<open>Statistics\<close>

text \<open>
  \<open>_mean_std\<close> in exact arithmetic. The source rounds each operation, so for a window of
  \<open>n\<close> equal values \<open>v\<close> its \<open>sum(vals) / n\<close> can differ from \<open>v\<close> in the last place
  (five times 0.47, ten times 0.1), and the deviation it returns is then a tiny positive
  number where this definition gives 0. What is proved below either does not depend on
  the values of \<open>mean_std\<close>, or takes the returned deviation as a hypothesis, or
  evaluates it at small integers, where the source computes without rounding.
\<close>

definition mean_std :: "real list \<Rightarrow> real \<times> real" where
  "mean_std vals =
     (let n = length vals
      in if n = 0 then (0, 0)
         else
           let m = sum_list vals / real n;
               var = (if n > 1 then sum_list (map (\<lambda>x. (x - m)\<^sup>2) vals) / real n else 0)
           in (m, sqrt var))"

text \<open>
  Python's \<open>int(r)\<close> on a float: truncation towards zero. It is applied to the product
  \<open>volume_window * 0.3\<close>, taken here as the exact three tenths of the window size.
\<close>

definition py_int :: "real \<Rightarrow> int" where
  "py_int r = (if 0 \<le> r then \<lfloor>r\<rfloor> else \<lceil>r\<rceil>)"

subsection \<open>\<open>AnomalyDetector.check\<close>\<close>

text \<open>
  The volume trigger as computed on lines 104 to 109 of the source, before the cooldown:
  from the window as it is before the candle's volume is appended.
\<close>

definition vol_raw :: "detector \<Rightarrow> kline \<Rightarrow> bool" where
  "vol_raw d k =
     (let s = conf d; volume_sol = k_v k
      in if minute_volume_min s \<le> 0 \<or> volume_sol \<ge> minute_volume_min s then
           let (mean_v, std_v) = mean_std (items (volumes d));
               z = (if std_v > 0 then (volume_sol - mean_v) / std_v else 0)
           in int (length (items (volumes d)))
                \<ge> max 5 (py_int (real_of_int (volume_window s) * 0.3))
              \<and> z \<ge> volume_zscore s
         else False)"

text \<open>The baseline of line 115: the left end of the price history, read before the append.\<close>

definition baseline :: "detector \<Rightarrow> kline \<Rightarrow> real" where
  "baseline d k = (if length (items (prices d)) > 0 then hd (items (prices d)) else k_c k)"

text \<open>The price trigger of lines 113 to 118, before the cooldown.\<close>

definition price_raw :: "detector \<Rightarrow> kline \<Rightarrow> bool" where
  "price_raw d k =
     (let s = conf d; close_price = k_c k; b = baseline d k
      in if int (length (items (prices d))) \<ge> price_window s then
           let pct = (if b \<noteq> 0 then (close_price - b) / b * 100 else 0)
           in \<bar>pct\<bar> \<ge> price_pct_change s
         else False)"

definition no_signal :: signals where
  "no_signal = \<lparr>volume = False, price = False, merged = False\<rparr>"

definition cooldown :: "detector \<Rightarrow> real" where
  "cooldown d = real_of_int (alert_cooldown_min (conf d) * 60)"

text \<open>
  \<open>check\<close> returns the signals and the detector as the call leaves it. The two early
  returns come first; then both triggers, both windows' appends, the cooldown tests, the
  merge and the timestamp update, in the source's order.
\<close>

definition check :: "detector \<Rightarrow> real \<Rightarrow> kline \<Rightarrow> signals \<times> detector" where
  "check d now k =
     (if \<not> k_x k then (no_signal, d)
      else
        let minute_bucket = k_T k div 60000
        in if last_minute_ts d = Some minute_bucket then (no_signal, d)
           else
             let vol_signal = vol_raw d k;
                 price_signal = price_raw d k;
                 vol_signal =
                   (if vol_signal \<and> now - last_alert_ts d ''volume'' < cooldown d
                    then False else vol_signal);
                 price_signal =
                   (if price_signal \<and> now - last_alert_ts d ''price'' < cooldown d
                    then False else price_signal);
                 mrg = (vol_signal \<and> price_signal);
                 vol_signal = (if mrg then False else vol_signal);
                 price_signal = (if mrg then False else price_signal);
                 ts = last_alert_ts d;
                 ts = (if mrg then ts(''merged'' := now)
                       else if vol_signal then ts(''volume'' := now)
                       else if price_signal then ts(''price'' := now)
                       else ts)
             in (\<lparr>volume = vol_signal, price = price_signal, merged = mrg\<rparr>,
                 d\<lparr>last_minute_ts := Some minute_bucket,
                   volumes := deque_append (volumes d) (k_v k),
                   prices := deque_append (prices d) (k_c k),
                   last_alert_ts := ts\<rparr>))"

text \<open>Feeding candles one after the other, each with the clock reading of its call.\<close>

fun run :: "detector \<Rightarrow> (real \<times> kline) list \<Rightarrow> signals list \<times> detector" where
  "run d [] = ([], d)"
| "run d ((now, k) # rest) =
     (let (sg, d') = check d now k; (sgs, d'') = run d' rest in (sg # sgs, d''))"

subsection \<open>The reconnect loop \<open>ws_loop\<close>\<close>

text \<open>
  One pass of the body of \<open>while True\<close> is one \<open>session\<close>, given by what the network did:
  \<^item> \<open>ConnectFailed r\<close>: \<open>ws_connect\<close> raised; \<open>r\<close> is what \<open>fetch_latest_rest\<close> then
    returned (\<open>None\<close>, or a candle together with the clock reading of its \<open>check\<close>);
  \<^item> \<open>Streamed ms e\<close>: the connection was made and the text messages \<open>ms\<close> were handled
    (each the kline of the payload with the clock reading of its \<open>check\<close>); with
    \<open>e = None\<close> the stream ended by a close or error message, with \<open>e = Some r\<close> an
    exception ended it and the fallback returned \<open>r\<close>.
  The loop never returns; the model runs it over a finite list of sessions and gives what
  it did, in order: the alerts sent and the sleeps taken. Sending an alert is taken to
  succeed.
\<close>

datatype action = Alert kline signals | Sleep real

datatype session =
    ConnectFailed "(real \<times> kline) option"
  | Streamed "(real \<times> kline) list" "(real \<times> kline) option option"

definition any_signal :: "signals \<Rightarrow> bool" where
  "any_signal sg = (volume sg \<or> price sg \<or> merged sg)"

definition dispatch :: "detector \<Rightarrow> real \<times> kline \<Rightarrow> action list \<times> detector" where
  "dispatch d m =
     (case m of (now, k) \<Rightarrow>
        let (sg, d') = check d now k
        in (if any_signal sg then [Alert k sg] else [], d'))"

fun stream :: "detector \<Rightarrow> (real \<times> kline) list \<Rightarrow> action list \<times> detector" where
  "stream d [] = ([], d)"
| "stream d ((now, k) # ms) =
     (if k_x k then
        let (a, d') = dispatch d (now, k); (as, d'') = stream d' ms in (a @ as, d'')
      else stream d ms)"

text \<open>The REST candle is wrapped with \<open>"x": True\<close> before it is checked.\<close>

definition fallback :: "detector \<Rightarrow> (real \<times> kline) option \<Rightarrow> action list \<times> detector" where
  "fallback d r =
     (case r of None \<Rightarrow> ([], d) | Some (now, k) \<Rightarrow> dispatch d (now, k\<lparr>k_x := True\<rparr>))"

fun ws_loop :: "detector \<Rightarrow> real \<Rightarrow> session list \<Rightarrow> action list \<times> detector \<times> real" where
  "ws_loop d backoff [] = ([], d, backoff)"
| "ws_loop d backoff (ConnectFailed r # rest) =
     (let (a1, d1) = fallback d r;
          (as, fin) = ws_loop d1 (min (backoff * 2) 60) rest
      in (a1 @ Sleep backoff # as, fin))"
| "ws_loop d backoff (Streamed ms e # rest) =
     (let backoff = 1;
          (a1, d1) = stream d ms;
          (a2, d2) = (case e of None \<Rightarrow> ([], d1) | Some r \<Rightarrow> fallback d1 r);
          (as, fin) = ws_loop d2 (min (backoff * 2) 60) rest
      in (a1 @ a2 @ Sleep backoff # as, fin))"

text \<open>The sleep of one pass that starts with \<open>backoff = b\<close>.\<close>

fun first_wait :: "real \<Rightarrow> session \<Rightarrow> real" where
  "first_wait b (ConnectFailed r) = b"
| "first_wait b (Streamed ms e) = 1"

text \<open>\<open>backoff = 1.0\<close> before the loop is entered.\<close>

definition ws_run :: "detector \<Rightarrow> session list \<Rightarrow> action list \<times> detector \<times> real" where
  "ws_run d ss = ws_loop d 1 ss"

fun sleeps :: "action list \<Rightarrow> real list" where
  "sleeps [] = []"
| "sleeps (Sleep w # as) = w # sleeps as"
| "sleeps (Alert k sg # as) = sleeps as"

subsection \<open>Concrete inputs\<close>

text \<open>
  A configuration with short windows: \<open>VOLUME_WINDOW=5\<close>, \<open>VOLUME_ZSCORE=1.5\<close>,
  \<open>PRICE_WINDOW=3\<close>, the other values the defaults of \<open>Settings.load\<close>.
\<close>

definition cfg5 :: Settings where
  "cfg5 = \<lparr>telegram_token = ''token'', telegram_chat_id = ''chat'', symbol = ''SOLUSDT'',
     kline_interval = ''1m'', volume_window = 5, volume_zscore = 1.5, minute_volume_min = 0,
     price_window = 3, price_pct_change = 2, alert_cooldown_min = 10,
     merge_signals_window = 1\<rparr>"

text \<open>The final candle of minute \<open>i\<close> with close \<open>cl\<close> and volume \<open>vl\<close>, and the clock at its check.\<close>

definition candle :: "int \<Rightarrow> real \<Rightarrow> real \<Rightarrow> kline" where
  "candle i cl vl = \<lparr>k_t = 60000 * i, k_T = 60000 * i + 59999, k_o = cl, k_h = cl,
     k_l = cl, k_c = cl, k_v = vl, k_x = True\<rparr>"

definition clock :: "int \<Rightarrow> real" where
  "clock i = 1700000000 + 60 * real_of_int i"

fun feed :: "int \<Rightarrow> (real \<times> real) list \<Rightarrow> (real \<times> kline) list" where
  "feed i [] = []"
| "feed i ((cl, vl) # r) = (clock i, candle i cl vl) # feed (i + 1) r"

text \<open>The detector as constructed from \<open>cfg5\<close>.\<close>

definition cold5 :: detector where
  "cold5 = \<lparr>conf = cfg5, volumes = \<lparr>maxlen = 5, items = []\<rparr>,
     prices = \<lparr>maxlen = 4, items = []\<rparr>, last_alert_ts = (\<lambda>_. 0), last_minute_ts = None\<rparr>"

text \<open>
  The detector after the candles of minutes 1 to 5, all with close 50, the first with
  volume 105 and the others with volume 100.
\<close>

definition warm5 :: detector where
  "warm5 = \<lparr>conf = cfg5, volumes = \<lparr>maxlen = 5, items = [105, 100, 100, 100, 100]\<rparr>,
     prices = \<lparr>maxlen = 4, items = [50, 50, 50, 50]\<rparr>, last_alert_ts = (\<lambda>_. 0),
     last_minute_ts = Some 5\<rparr>"

definition merged_only :: signals where
  "merged_only = \<lparr>volume = False, price = False, merged = True\<rparr>"

section \<open>Properties of \<open>check\<close>\<close>

subsection \<open>Evaluation at the concrete inputs\<close>

lemmas eval5 = check_def vol_raw_def price_raw_def baseline_def cooldown_def py_int_def
  mean_std_def deque_append_def Let_def cfg5_def candle_def clock_def no_signal_def
  merged_only_def

lemma init_cfg5: "init cfg5 = Inr cold5"
  by (simp add: init_def deque_new_def cfg5_def cold5_def)

lemma warm5_reached:
  "run cold5 (feed 1 [(50, 105), (50, 100), (50, 100), (50, 100), (50, 100)])
     = ([no_signal, no_signal, no_signal, no_signal, no_signal], warm5)"
  by (simp add: eval5 cold5_def warm5_def)

subsection \<open>What a call on a new final candle returns\<close>

lemma check_not_final: "\<not> k_x k \<Longrightarrow> check d now k = (no_signal, d)"
  by (simp add: check_def)

lemma check_fresh:
  assumes "k_x k" and "last_minute_ts d \<noteq> Some (k_T k div 60000)"
  shows "volume (fst (check d now k))
           = (vol_raw d k \<and> \<not> now - last_alert_ts d ''volume'' < cooldown d
              \<and> \<not> (price_raw d k \<and> \<not> now - last_alert_ts d ''price'' < cooldown d))"
    and "price (fst (check d now k))
           = (price_raw d k \<and> \<not> now - last_alert_ts d ''price'' < cooldown d
              \<and> \<not> (vol_raw d k \<and> \<not> now - last_alert_ts d ''volume'' < cooldown d))"
    and "merged (fst (check d now k))
           = (vol_raw d k \<and> \<not> now - last_alert_ts d ''volume'' < cooldown d
              \<and> price_raw d k \<and> \<not> now - last_alert_ts d ''price'' < cooldown d)"
    and "volumes (snd (check d now k)) = deque_append (volumes d) (k_v k)"
    and "prices (snd (check d now k)) = deque_append (prices d) (k_c k)"
    and "last_minute_ts (snd (check d now k)) = Some (k_T k div 60000)"
    and "conf (snd (check d now k)) = conf d"
  using assms by (auto simp add: check_def Let_def)

lemma volume_implies_raw: "volume (fst (check d now k)) \<Longrightarrow> vol_raw d k"
  by (simp add: check_def no_signal_def Let_def split: if_splits)

lemma price_implies_raw: "price (fst (check d now k)) \<Longrightarrow> price_raw d k"
  by (simp add: check_def no_signal_def Let_def split: if_splits)

subsection \<open>Cooldown\<close>

text \<open>
  A reported \<open>volume\<close> is held back for the cooldown: the call stores the clock under
  \<open>"volume"\<close>, and the next call tests against it. The same for \<open>price\<close>.
\<close>

lemma volume_cooldown:
  assumes "volume (fst (check d now k))" and "now' - now < cooldown d"
  shows "\<not> volume (fst (check (snd (check d now k)) now' k'))"
proof -
  from assms(1) have fresh: "k_x k" "last_minute_ts d \<noteq> Some (k_T k div 60000)"
    by (auto simp add: check_def no_signal_def split: if_splits)
  let ?d = "snd (check d now k)"
  have ts: "last_alert_ts ?d ''volume'' = now" and cd: "cooldown ?d = cooldown d"
    using assms(1) fresh by (auto simp add: check_def Let_def cooldown_def split: if_splits)
  show ?thesis
  proof (cases "k_x k' \<and> last_minute_ts ?d \<noteq> Some (k_T k' div 60000)")
    case True
    then show ?thesis using assms(2) ts cd by (simp add: check_fresh(1))
  next
    case False
    then show ?thesis by (auto simp add: check_def no_signal_def)
  qed
qed

lemma price_cooldown:
  assumes "price (fst (check d now k))" and "now' - now < cooldown d"
  shows "\<not> price (fst (check (snd (check d now k)) now' k'))"
proof -
  from assms(1) have fresh: "k_x k" "last_minute_ts d \<noteq> Some (k_T k div 60000)"
    by (auto simp add: check_def no_signal_def split: if_splits)
  let ?d = "snd (check d now k)"
  have ts: "last_alert_ts ?d ''price'' = now" and cd: "cooldown ?d = cooldown d"
    using assms(1) fresh by (auto simp add: check_def Let_def cooldown_def split: if_splits)
  show ?thesis
  proof (cases "k_x k' \<and> last_minute_ts ?d \<noteq> Some (k_T k' div 60000)")
    case True
    then show ?thesis using assms(2) ts cd by (simp add: check_fresh(2))
  next
    case False
    then show ?thesis by (auto simp add: check_def no_signal_def)
  qed
qed

text \<open>
  A reported \<open>merged\<close> stores the clock under \<open>"merged"\<close> only; the two timestamps that
  the cooldown tests read stay as they were.
\<close>

lemma merged_keeps_timestamps:
  assumes "merged (fst (check d now k))"
  shows "last_alert_ts (snd (check d now k)) ''volume'' = last_alert_ts d ''volume''"
    and "last_alert_ts (snd (check d now k)) ''price'' = last_alert_ts d ''price''"
    and "last_alert_ts (snd (check d now k)) ''merged'' = now"
  using assms by (auto simp add: check_def Let_def no_signal_def split: if_splits)

text \<open>
  C1: a reported kind is to be suppressed for \<open>alert_cooldown_min * 60\<close> seconds. For
  \<open>merged\<close> the code does not do so. The detector is built from \<open>cfg5\<close> (cooldown 600
  seconds) and fed seven candles one minute apart: five that fill the windows, then twice
  the same anomalous candle (close 60 against 50, volume 105 against a mean of 101). The
  first anomalous candle is reported as \<open>merged\<close>, and so is the second, 60 seconds later.
\<close>

theorem merged_repeats_inside_cooldown:
  "init cfg5 = Inr cold5
   \<and> fst (run cold5 (feed 1 [(50, 105), (50, 100), (50, 100), (50, 100), (50, 100),
                              (60, 105), (60, 105)]))
       = [no_signal, no_signal, no_signal, no_signal, no_signal, merged_only, merged_only]
   \<and> clock 7 - clock 6 < cooldown cold5"
  by (simp add: eval5 init_def deque_new_def cold5_def)

subsection \<open>The two early returns\<close>

text \<open>
  C2: a candle whose minute bucket \<open>T // 60000\<close> is the recorded one gets the all-false
  signals, and the detector is returned as it was: windows, timestamps and minute marker.
\<close>

theorem check_same_bucket_noop:
  assumes "last_minute_ts d = Some (k_T k div 60000)"
  shows "check d now k = (\<lparr>volume = False, price = False, merged = False\<rparr>, d)"
  using assms by (simp add: check_def no_signal_def)

text \<open>The candle of minute 5 offered again to the detector that has just handled minute 5.\<close>

theorem check_same_bucket_noop_witness:
  "last_minute_ts warm5 = Some (k_T (candle 5 60 105) div 60000)
   \<and> check warm5 (clock 6) (candle 5 60 105)
       = (\<lparr>volume = False, price = False, merged = False\<rparr>, warm5)"
proof -
  have h: "last_minute_ts warm5 = Some (k_T (candle 5 60 105) div 60000)"
    by (simp add: warm5_def candle_def)
  from check_same_bucket_noop [OF h] h show ?thesis by blast
qed

subsection \<open>Shape of the returned signals\<close>

text \<open>
  C3: of the three flags returned by \<open>check\<close> at most one is set; a set \<open>merged\<close> comes
  with both \<open>volume\<close> and \<open>price\<close> cleared.
\<close>

theorem check_at_most_one_flag:
  "\<not> (volume (fst (check d now k)) \<and> price (fst (check d now k)))
   \<and> \<not> (volume (fst (check d now k)) \<and> merged (fst (check d now k)))
   \<and> \<not> (price (fst (check d now k)) \<and> merged (fst (check d now k)))
   \<and> (merged (fst (check d now k))
        \<longrightarrow> \<not> volume (fst (check d now k)) \<and> \<not> price (fst (check d now k)))"
  by (simp add: check_def no_signal_def Let_def)

theorem check_at_most_one_flag_witness:
  "merged (fst (check warm5 (clock 6) (candle 6 60 105)))
   \<and> \<not> volume (fst (check warm5 (clock 6) (candle 6 60 105)))
   \<and> \<not> price (fst (check warm5 (clock 6) (candle 6 60 105)))"
proof -
  have h: "merged (fst (check warm5 (clock 6) (candle 6 60 105)))"
    by (simp add: eval5 warm5_def)
  from check_at_most_one_flag [of warm5 "clock 6" "candle 6 60 105"] h
  show ?thesis by blast
qed

text \<open>
  C4: on a new final candle, when both raw triggers are true and neither is inside its
  cooldown, \<open>check\<close> returns exactly \<open>merged\<close>.
\<close>

theorem both_raw_unsuppressed_merge:
  assumes "k_x k" and "last_minute_ts d \<noteq> Some (k_T k div 60000)"
    and "vol_raw d k" and "price_raw d k"
    and "\<not> now - last_alert_ts d ''volume'' < cooldown d"
    and "\<not> now - last_alert_ts d ''price'' < cooldown d"
  shows "fst (check d now k) = \<lparr>volume = False, price = False, merged = True\<rparr>"
  using assms by (simp add: check_def Let_def)

theorem both_raw_unsuppressed_merge_witness:
  "k_x (candle 6 60 105) \<and> last_minute_ts warm5 \<noteq> Some (k_T (candle 6 60 105) div 60000)
   \<and> vol_raw warm5 (candle 6 60 105) \<and> price_raw warm5 (candle 6 60 105)
   \<and> \<not> clock 6 - last_alert_ts warm5 ''volume'' < cooldown warm5
   \<and> \<not> clock 6 - last_alert_ts warm5 ''price'' < cooldown warm5
   \<and> fst (check warm5 (clock 6) (candle 6 60 105))
       = \<lparr>volume = False, price = False, merged = True\<rparr>"
proof -
  have h1: "k_x (candle 6 60 105)" by (simp add: candle_def)
  have h2: "last_minute_ts warm5 \<noteq> Some (k_T (candle 6 60 105) div 60000)"
    by (simp add: candle_def warm5_def)
  have h3: "vol_raw warm5 (candle 6 60 105)" by (simp add: eval5 warm5_def)
  have h4: "price_raw warm5 (candle 6 60 105)" by (simp add: eval5 warm5_def)
  have h5: "\<not> clock 6 - last_alert_ts warm5 ''volume'' < cooldown warm5"
    by (simp add: eval5 warm5_def)
  have h6: "\<not> clock 6 - last_alert_ts warm5 ''price'' < cooldown warm5"
    by (simp add: eval5 warm5_def)
  from both_raw_unsuppressed_merge [OF h1 h2 h3 h4 h5 h6] h1 h2 h3 h4 h5 h6
  show ?thesis by blast
qed

subsection \<open>The price trigger\<close>

text \<open>The history of closes after a run of candles of consecutive minutes.\<close>

lemma bucket_candle: "k_T (candle i cl vl) div 60000 = i"
  by (simp add: candle_def)

lemma deque_append_bounded:
  assumes "length (items q) \<le> maxlen q"
  shows "maxlen (deque_append q a) = maxlen q"
    and "length (items (deque_append q a)) \<le> maxlen q"
    and "items (deque_append q a) = drop (Suc (length (items q)) - maxlen q) (items q @ [a])"
proof -
  show "maxlen (deque_append q a) = maxlen q" by (simp add: deque_append_def Let_def)
  show "length (items (deque_append q a)) \<le> maxlen q"
    using assms by (simp add: deque_append_def Let_def)
  show "items (deque_append q a) = drop (Suc (length (items q)) - maxlen q) (items q @ [a])"
  proof (cases "length (items q) = maxlen q")
    case True
    then have e: "Suc (length (items q)) - maxlen q = Suc 0" by simp
    have 1: "items (deque_append q a) = tl (items q @ [a])"
      using True by (simp add: deque_append_def Let_def)
    have 2: "drop (Suc 0) (items q @ [a]) = tl (items q @ [a])"
      by (simp only: drop_Suc drop_0)
    from 1 2 e show ?thesis by (simp only:)
  next
    case False
    with assms have "length (items q) < maxlen q" by simp
    then show ?thesis by (simp add: deque_append_def Let_def)
  qed
qed

lemma foldl_deque_append:
  assumes "length (items q) \<le> maxlen q"
  shows "items (foldl deque_append q xs)
             = drop (length (items q) + length xs - maxlen q) (items q @ xs)"
  using assms
proof (induction xs arbitrary: q)
  case Nil
  then show ?case by simp
next
  case (Cons x xs)
  let ?q = "deque_append q x"
  note b = deque_append_bounded [OF Cons.prems, of x]
  have le: "length (items ?q) \<le> maxlen ?q" using b by simp
  have ih: "items (foldl deque_append ?q xs)
              = drop (length (items ?q) + length xs - maxlen q) (items ?q @ xs)"
    using Cons.IH [OF le] b(1) by simp
  show ?case
  proof (cases "length (items q) = maxlen q")
    case True
    then have iq: "items ?q = drop (Suc 0) (items q @ [x])"
      and lq: "length (items ?q) = maxlen q"
      using b(3) by simp_all
    have app: "items ?q @ xs = drop (Suc 0) (items q @ x # xs)"
      unfolding iq by (cases "items q") simp_all
    have "items (foldl deque_append ?q xs) = drop (length xs) (items ?q @ xs)"
      using ih lq by simp
    also have "\<dots> = drop (length xs) (drop (Suc 0) (items q @ x # xs))"
      by (simp only: app)
    also have "\<dots> = drop (Suc (length xs)) (items q @ x # xs)"
      by (simp only: drop_drop add_Suc_right add_0_right)
    finally have "items (foldl deque_append ?q xs) = drop (Suc (length xs)) (items q @ x # xs)" .
    moreover have "length (items q) + length (x # xs) - maxlen q = Suc (length xs)"
      using True by simp
    ultimately show ?thesis by (simp only: foldl_Cons)
  next
    case False
    with Cons.prems have lt: "length (items q) < maxlen q" by simp
    then have iq: "items ?q = items q @ [x]" using b(3) by simp
    with ih show ?thesis by simp
  qed
qed

lemma run_feed_prices:
  assumes "\<forall>j. last_minute_ts d = Some j \<longrightarrow> j < i"
  shows "prices (snd (run d (feed i cvs))) = foldl deque_append (prices d) (map fst cvs)"
  using assms
proof (induction cvs arbitrary: d i)
  case Nil
  then show ?case by simp
next
  case (Cons cv cvs)
  obtain cl vl where cv: "cv = (cl, vl)" by (cases cv)
  let ?k = "candle i cl vl"
  let ?d = "snd (check d (clock i) ?k)"
  have x: "k_x ?k" by (simp add: candle_def)
  have fresh: "last_minute_ts d \<noteq> Some (k_T ?k div 60000)"
    using Cons.prems by (auto simp add: bucket_candle)
  have "last_minute_ts ?d = Some i"
    using check_fresh(6) [OF x fresh] by (simp add: bucket_candle)
  then have "\<forall>j. last_minute_ts ?d = Some j \<longrightarrow> j < i + 1" by simp
  from Cons.IH [OF this] check_fresh(5) [OF x fresh, of "clock i"] cv
  show ?case by (simp add: split_beta candle_def)
qed

text \<open>
  A detector built by \<open>init\<close> and fed \<open>n\<close> final candles of consecutive minutes, with
  \<open>n\<close> at least \<open>price_window + 1\<close>: the baseline for the next candle is the close
  at position \<open>n - (price_window + 1)\<close> of those fed (counting from 0), which is
  \<open>price_window + 1\<close> evaluations before that next candle.
\<close>

lemma steady_state_baseline:
  assumes "init s = Inr d0" and "0 \<le> price_window s"
    and "price_window s + 1 \<le> int (length cvs)"
  shows "baseline (snd (run d0 (feed 1 cvs))) k
           = fst (cvs ! (length cvs - nat (price_window s + 1)))"
proof -
  from assms(1) have p0: "prices d0 = \<lparr>maxlen = nat (price_window s + 1), items = []\<rparr>"
    and l0: "last_minute_ts d0 = None"
    by (auto simp add: init_def deque_new_def split: if_splits)
  let ?m = "nat (price_window s + 1)"
  let ?d = "snd (run d0 (feed 1 cvs))"
  from assms(2,3) have m: "0 < ?m" "?m \<le> length cvs" by simp_all
  have "prices ?d = foldl deque_append (prices d0) (map fst cvs)"
    by (rule run_feed_prices) (simp add: l0)
  with foldl_deque_append [of "prices d0" "map fst cvs"] p0
  have it: "items (prices ?d) = drop (length cvs - ?m) (map fst cvs)" by simp
  from m have lt: "length cvs - ?m < length (map fst cvs)" by simp
  from it lt have "hd (items (prices ?d)) = map fst cvs ! (length cvs - ?m)"
    by (simp only: hd_drop_conv_nth)
  moreover from it m have "length (items (prices ?d)) > 0" by simp
  ultimately show ?thesis using lt by (simp add: baseline_def)
qed

text \<open>
  C5: the price history holds up to \<open>price_window + 1\<close> closes, and the baseline is to be
  the close of \<open>price_window\<close> evaluations earlier. With \<open>price_window = 3\<close> the detector
  is fed the closes 100, 101, 101, 101 and then 102.5. At the fifth candle the history is
  full and its left end, the baseline, is 100: the close of the first candle, four
  evaluations earlier. Against it the move is 2.5 percent and \<open>price\<close> is reported;
  against the close of three evaluations earlier, 101, the move is below the threshold.
\<close>

theorem baseline_one_candle_too_old:
  "price_window cfg5 = 3
   \<and> snd (run cold5 (feed 1 [(100, 100), (101, 100), (101, 100), (101, 100)]))
       = cold5\<lparr>last_minute_ts := Some 4,
               volumes := \<lparr>maxlen = 5, items = [100, 100, 100, 100]\<rparr>,
               prices := \<lparr>maxlen = 4, items = [100, 101, 101, 101]\<rparr>\<rparr>
   \<and> baseline (cold5\<lparr>last_minute_ts := Some 4,
                      volumes := \<lparr>maxlen = 5, items = [100, 100, 100, 100]\<rparr>,
                      prices := \<lparr>maxlen = 4, items = [100, 101, 101, 101]\<rparr>\<rparr>)
               (candle 5 102.5 100) = 100
   \<and> fst (run cold5 (feed 1 [(100, 100), (101, 100), (101, 100), (101, 100), (102.5, 100)]))
       = [no_signal, no_signal, no_signal, no_signal,
          \<lparr>volume = False, price = True, merged = False\<rparr>]
   \<and> \<bar>(102.5 - 101) / 101 * 100\<bar> < price_pct_change cfg5"
  by (simp add: eval5 cold5_def)

text \<open>
  C6: while the price history holds fewer than \<open>price_window\<close> closes, \<open>check\<close> returns
  \<open>price = False\<close>, whatever the candle.
\<close>

theorem price_needs_window:
  assumes "int (length (items (prices d))) < price_window (conf d)"
  shows "\<not> price (fst (check d now k))"
proof
  assume "price (fst (check d now k))"
  then have "price_raw d k" by (rule price_implies_raw)
  with assms show False by (simp add: price_raw_def Let_def)
qed

text \<open>Two closes of 50 in the history, window 3, and a candle that closes at 100.\<close>

theorem price_needs_window_witness:
  "int (length (items (prices (warm5\<lparr>prices := \<lparr>maxlen = 4, items = [50, 50]\<rparr>\<rparr>))))
     < price_window (conf (warm5\<lparr>prices := \<lparr>maxlen = 4, items = [50, 50]\<rparr>\<rparr>))
   \<and> \<not> price (fst (check (warm5\<lparr>prices := \<lparr>maxlen = 4, items = [50, 50]\<rparr>\<rparr>)
                          (clock 6) (candle 6 100 100)))"
proof -
  have h: "int (length (items (prices (warm5\<lparr>prices := \<lparr>maxlen = 4, items = [50, 50]\<rparr>\<rparr>))))
             < price_window (conf (warm5\<lparr>prices := \<lparr>maxlen = 4, items = [50, 50]\<rparr>\<rparr>))"
    by (simp add: warm5_def cfg5_def)
  from price_needs_window [OF h] h show ?thesis by blast
qed

subsection \<open>The volume trigger\<close>

lemma max5_py_int: "max 5 (py_int r) = max 5 \<lfloor>r\<rfloor>"
proof (cases "0 \<le> r")
  case True
  then show ?thesis by (simp add: py_int_def)
next
  case False
  then have "\<lceil>r\<rceil> \<le> 0" and "\<lfloor>r\<rfloor> \<le> 0" by (simp_all add: ceiling_le_iff floor_le_iff)
  with False show ?thesis by (simp add: py_int_def)
qed

text \<open>
  C7: while the volume window holds fewer than \<open>max(5, floor(0.3 * volume_window))\<close>
  samples, \<open>check\<close> returns \<open>volume = False\<close>, whatever the candle's volume.
\<close>

theorem volume_needs_samples:
  assumes "int (length (items (volumes d)))
             < max 5 \<lfloor>0.3 * real_of_int (volume_window (conf d))\<rfloor>"
  shows "\<not> volume (fst (check d now k))"
proof
  assume "volume (fst (check d now k))"
  then have "vol_raw d k" by (rule volume_implies_raw)
  then have "int (length (items (volumes d)))
               \<ge> max 5 (py_int (real_of_int (volume_window (conf d)) * 0.3))"
    by (simp add: vol_raw_def Let_def split: if_splits prod.splits)
  then have "int (length (items (volumes d)))
               \<ge> max 5 \<lfloor>0.3 * real_of_int (volume_window (conf d))\<rfloor>"
    by (simp only: max5_py_int mult.commute)
  with assms show False by linarith
qed

text \<open>Four samples around 100 in a window of 5, and a candle with volume 1000000.\<close>

theorem volume_needs_samples_witness:
  "int (length (items (volumes (warm5\<lparr>volumes := \<lparr>maxlen = 5, items = [105, 100, 100, 100]\<rparr>\<rparr>))))
     < max 5 \<lfloor>0.3 * real_of_int (volume_window
                 (conf (warm5\<lparr>volumes := \<lparr>maxlen = 5, items = [105, 100, 100, 100]\<rparr>\<rparr>)))\<rfloor>
   \<and> \<not> volume (fst (check (warm5\<lparr>volumes := \<lparr>maxlen = 5, items = [105, 100, 100, 100]\<rparr>\<rparr>)
                           (clock 6) (candle 6 50 1000000)))"
proof -
  have h: "int (length (items (volumes
                  (warm5\<lparr>volumes := \<lparr>maxlen = 5, items = [105, 100, 100, 100]\<rparr>\<rparr>))))
             < max 5 \<lfloor>0.3 * real_of_int (volume_window
                 (conf (warm5\<lparr>volumes := \<lparr>maxlen = 5, items = [105, 100, 100, 100]\<rparr>\<rparr>)))\<rfloor>"
    by (simp add: warm5_def cfg5_def)
  from volume_needs_samples [OF h] h show ?thesis by blast
qed

text \<open>
  C8: on a new final candle whose volume is below a positive \<open>minute_volume_min\<close>,
  \<open>check\<close> returns \<open>volume = False\<close>, and both windows get the candle's values appended as
  on any other evaluated candle.
\<close>

theorem volume_floor_still_updates:
  assumes "k_x k" and "last_minute_ts d \<noteq> Some (k_T k div 60000)"
    and "0 < minute_volume_min (conf d)" and "k_v k < minute_volume_min (conf d)"
  shows "\<not> volume (fst (check d now k))
         \<and> volumes (snd (check d now k)) = deque_append (volumes d) (k_v k)
         \<and> prices (snd (check d now k)) = deque_append (prices d) (k_c k)"
proof -
  from assms(3,4) have "\<not> vol_raw d k" by (simp add: vol_raw_def Let_def)
  then have "\<not> volume (fst (check d now k))" using volume_implies_raw by blast
  with check_fresh(4,5) [OF assms(1,2)] show ?thesis by simp
qed

text \<open>
  The detector \<open>warm5\<close> with a floor of 200, and the candle of volume 105 that without the
  floor has a z-score of 2.
\<close>

theorem volume_floor_still_updates_witness:
  "k_x (candle 6 50 105)
   \<and> last_minute_ts (warm5\<lparr>conf := cfg5\<lparr>minute_volume_min := 200\<rparr>\<rparr>)
       \<noteq> Some (k_T (candle 6 50 105) div 60000)
   \<and> 0 < minute_volume_min (conf (warm5\<lparr>conf := cfg5\<lparr>minute_volume_min := 200\<rparr>\<rparr>))
   \<and> k_v (candle 6 50 105) < minute_volume_min (conf (warm5\<lparr>conf := cfg5\<lparr>minute_volume_min := 200\<rparr>\<rparr>))
   \<and> \<not> volume (fst (check (warm5\<lparr>conf := cfg5\<lparr>minute_volume_min := 200\<rparr>\<rparr>)
                           (clock 6) (candle 6 50 105)))
   \<and> items (volumes (snd (check (warm5\<lparr>conf := cfg5\<lparr>minute_volume_min := 200\<rparr>\<rparr>)
                                 (clock 6) (candle 6 50 105))))
       = [100, 100, 100, 100, 105]
   \<and> items (prices (snd (check (warm5\<lparr>conf := cfg5\<lparr>minute_volume_min := 200\<rparr>\<rparr>)
                                (clock 6) (candle 6 50 105))))
       = [50, 50, 50, 50]"
proof -
  let ?d = "warm5\<lparr>conf := cfg5\<lparr>minute_volume_min := 200\<rparr>\<rparr>"
  let ?k = "candle 6 50 105"
  have h1: "k_x ?k" by (simp add: candle_def)
  have h2: "last_minute_ts ?d \<noteq> Some (k_T ?k div 60000)" by (simp add: candle_def warm5_def)
  have h3: "0 < minute_volume_min (conf ?d)" by simp
  have h4: "k_v ?k < minute_volume_min (conf ?d)" by (simp add: candle_def)
  have a: "items (deque_append (volumes ?d) (k_v ?k)) = [100, 100, 100, 100, 105]"
    by (simp add: deque_append_def warm5_def candle_def)
  have b: "items (deque_append (prices ?d) (k_c ?k)) = [50, 50, 50, 50]"
    by (simp add: deque_append_def warm5_def candle_def)
  from volume_floor_still_updates [OF h1 h2 h3 h4, of "clock 6"] a b h1 h2 h3 h4
  show ?thesis by simp
qed






section \<open>Properties of \<open>ws_loop\<close>\<close>

lemma sleeps_append: "sleeps (as @ bs) = sleeps as @ sleeps bs"
  by (induction as rule: sleeps.induct) simp_all

lemma sleeps_dispatch: "sleeps (fst (dispatch d m)) = []"
  by (simp add: dispatch_def split: prod.splits)

lemma sleeps_stream: "sleeps (fst (stream d ms)) = []"
proof (induction ms arbitrary: d)
  case Nil
  then show ?case by simp
next
  case (Cons m ms)
  obtain now k where m: "m = (now, k)" by (cases m)
  show ?case
  proof (cases "k_x k")
    case True
    with m Cons.IH show ?thesis
      by (simp add: sleeps_append sleeps_dispatch split_beta)
  next
    case False
    with m Cons.IH [of d] show ?thesis by simp
  qed
qed

lemma sleeps_fallback: "sleeps (fst (fallback d r)) = []"
  by (cases r) (auto simp add: fallback_def sleeps_dispatch)

text \<open>One pass sleeps once, and hands the doubled, capped delay to the next pass.\<close>

lemma sleeps_ws_loop_Cons:
  "\<exists>d'. sleeps (fst (ws_loop d b (s # rest)))
         = first_wait b s # sleeps (fst (ws_loop d' (min (first_wait b s * 2) 60) rest))"
proof (cases s)
  case (ConnectFailed r)
  then show ?thesis
    by (auto simp add: sleeps_append sleeps_fallback split_beta)
next
  case (Streamed ms e)
  then show ?thesis
    by (cases e) (auto simp add: sleeps_append sleeps_stream sleeps_fallback split_beta)
qed

lemma length_sleeps_ws_loop: "length (sleeps (fst (ws_loop d b ss))) = length ss"
proof (induction ss arbitrary: d b)
  case Nil
  then show ?case by simp
next
  case (Cons s ss)
  from sleeps_ws_loop_Cons [of d b s ss] obtain d' where
    "sleeps (fst (ws_loop d b (s # ss)))
       = first_wait b s # sleeps (fst (ws_loop d' (min (first_wait b s * 2) 60) ss))" ..
  with Cons.IH show ?case by simp
qed

lemma nth_sleeps_ws_loop:
  "i < length ss \<Longrightarrow>
   sleeps (fst (ws_loop d b ss)) ! i =
     (case ss ! i of
        Streamed ms e \<Rightarrow> 1
      | ConnectFailed r \<Rightarrow>
          if i = 0 then b else min (sleeps (fst (ws_loop d b ss)) ! (i - 1) * 2) 60)"
proof (induction ss arbitrary: d b i)
  case Nil
  then show ?case by simp
next
  case (Cons s ss)
  from sleeps_ws_loop_Cons [of d b s ss] obtain d' where
    unf: "sleeps (fst (ws_loop d b (s # ss)))
       = first_wait b s # sleeps (fst (ws_loop d' (min (first_wait b s * 2) 60) ss))" ..
  show ?case
  proof (cases i)
    case 0
    then show ?thesis unfolding unf by (cases s) simp_all
  next
    case (Suc j)
    with Cons.prems have j: "j < length ss" by simp
    note ih = Cons.IH [OF j, of d' "min (first_wait b s * 2) 60"]
    show ?thesis unfolding unf using Suc ih
      by (cases j) (simp_all split: session.splits)
  qed
qed

text \<open>
  C10: the loop sleeps once per pass. Three failed connections from the start sleep 1, 2
  and 4 seconds. In any run, the sleep of a pass that connected is 1 second; the sleep of a
  pass whose connection failed is 1 second if it is the first pass, and otherwise twice
  the sleep of the pass before it, capped at 60 seconds.
\<close>

theorem backoff_trace:
  "sleeps (fst (ws_run d [ConnectFailed r1, ConnectFailed r2, ConnectFailed r3])) = [1, 2, 4]
   \<and> length (sleeps (fst (ws_run d ss))) = length ss
   \<and> (\<forall>i < length ss.
        sleeps (fst (ws_run d ss)) ! i =
          (case ss ! i of
             Streamed ms e \<Rightarrow> 1
           | ConnectFailed r \<Rightarrow>
               if i = 0 then 1 else min (sleeps (fst (ws_run d ss)) ! (i - 1) * 2) 60))"
proof -
  have "sleeps (fst (ws_run d [ConnectFailed r1, ConnectFailed r2, ConnectFailed r3]))
          = [1, 2, 4]"
    by (simp add: ws_run_def sleeps_append sleeps_fallback split_beta)
  then show ?thesis
    unfolding ws_run_def using length_sleeps_ws_loop nth_sleeps_ws_loop by blast
qed

text \<open>
  Two failures, then a connection that streams the anomalous candle and is closed, then a
  failure: the third sleep is back at 1 second and the fourth is 2 seconds.
\<close>

theorem backoff_trace_witness:
  "(3::nat) < length [ConnectFailed None, ConnectFailed None,
                      Streamed [(clock 6, candle 6 60 105)] None, ConnectFailed None]
   \<and> sleeps (fst (ws_run warm5 [ConnectFailed None, ConnectFailed None,
                                Streamed [(clock 6, candle 6 60 105)] None,
                                ConnectFailed None])) ! 2 = 1
   \<and> sleeps (fst (ws_run warm5 [ConnectFailed None, ConnectFailed None,
                                Streamed [(clock 6, candle 6 60 105)] None,
                                ConnectFailed None])) ! 3 = 2
   \<and> sleeps (fst (ws_run warm5 [ConnectFailed None, ConnectFailed None, ConnectFailed None]))
       = [1, 2, 4]"
proof -
  let ?ss = "[ConnectFailed None, ConnectFailed None,
              Streamed [(clock 6, candle 6 60 105)] None, ConnectFailed None]"
  let ?w = "sleeps (fst (ws_run warm5 ?ss))"
  have h3: "(3::nat) < length ?ss" and h2: "(2::nat) < length ?ss" by simp_all
  note t = backoff_trace [of warm5 None None None ?ss]
  from t have three:
    "sleeps (fst (ws_run warm5 [ConnectFailed None, ConnectFailed None, ConnectFailed None]))
       = [1, 2, 4]" by blast
  from t have every: "\<forall>i < length ?ss. ?w ! i =
      (case ?ss ! i of Streamed ms e \<Rightarrow> 1
       | ConnectFailed r \<Rightarrow> if i = 0 then 1 else min (?w ! (i - 1) * 2) 60)" by blast
  from every h2 have "?w ! 2 = (case ?ss ! 2 of Streamed ms e \<Rightarrow> 1
       | ConnectFailed r \<Rightarrow> if (2::nat) = 0 then 1 else min (?w ! (2 - 1) * 2) 60)" by blast
  then have w2: "?w ! 2 = 1" by simp
  from every h3 have "?w ! 3 = (case ?ss ! 3 of Streamed ms e \<Rightarrow> 1
       | ConnectFailed r \<Rightarrow> if (3::nat) = 0 then 1 else min (?w ! (3 - 1) * 2) 60)" by blast
  with w2 have w3: "?w ! 3 = 2" by simp
  from h3 w2 w3 three show ?thesis by blast
qed

end
